theory Spec2Isabelle
  imports Complex_Main
begin

section \<open>Bayesian survival analysis notebook: the array pipeline\<close>

text \<open>
  The notebook \<^verbatim>\<open>notebooks/survival_analysis.ipynb\<close> turns a table of
  observations into per-interval death and exposure matrices, hands them to a sampler,
  and post-processes the sampled hazards into cumulative-hazard and survival curves.
  This theory embeds the array code of its cells.

  Numbers: NumPy's \<^verbatim>\<open>float64\<close> values are modelled as \<^typ>\<open>real\<close>, so
  rounding and overflow of the machine format are outside the model. The one effect
  of the format that is kept is the underflow of \<^verbatim>\<open>np.exp\<close> to exactly
  \<open>0.0\<close>, which the survival curve reaches at large cumulative hazards.
  \<^verbatim>\<open>int64\<close> values are \<^typ>\<open>int\<close>. A one-dimensional array is a list, a
  two-dimensional array a list of rows.
\<close>

subsection \<open>Cumulative hazard and survival function\<close>

text \<open>\<^verbatim>\<open>interval_length = 3\<close>\<close>

definition interval_length :: int where
  "interval_length = 3"

text \<open>
  \<^verbatim>\<open>ndarray.cumsum(axis=-1)\<close> on one row: the running sum, the accumulator
  carried from left to right.
\<close>

fun cumsum_from :: "real \<Rightarrow> real list \<Rightarrow> real list" where
  "cumsum_from acc [] = []"
| "cumsum_from acc (x # xs) = (acc + x) # cumsum_from (acc + x) xs"

definition cumsum :: "real list \<Rightarrow> real list" where
  "cumsum xs = cumsum_from 0 xs"

text \<open>
  \<^verbatim>\<open>def cum_hazard(hazard): return (interval_length * hazard).cumsum(axis=-1)\<close>
\<close>

definition cum_hazard :: "real list \<Rightarrow> real list" where
  "cum_hazard hazard = cumsum (map (\<lambda>h. real_of_int interval_length * h) hazard)"

text \<open>
  \<^verbatim>\<open>np.exp\<close> on \<^verbatim>\<open>float64\<close>: the smallest positive value of the format is
  \<open>2 ^ -1074\<close>, and rounding to nearest returns \<open>0.0\<close> for an exponential of at
  most half of it, which happens for arguments below about \<open>-745.13\<close>. Above that
  bound the result is taken to be the real exponential.
\<close>

definition underflow_bound :: real where
  "underflow_bound = 1 / 2 ^ 1075"

definition np_exp :: "real \<Rightarrow> real" where
  "np_exp x = (if exp x \<le> underflow_bound then 0 else exp x)"

text \<open>
  \<^verbatim>\<open>def survival(hazard): return np.exp(-cum_hazard(hazard))\<close>
\<close>

definition survival :: "real list \<Rightarrow> real list" where
  "survival hazard = map (\<lambda>c. np_exp (- c)) (cum_hazard hazard)"

subsection \<open>Hazards of the two groups\<close>

text \<open>
  The posterior trace of the sampler, as far as the notebook reads it: one row of
  baseline hazards \<^verbatim>\<open>trace['lambda0']\<close> and one coefficient
  \<^verbatim>\<open>trace['beta']\<close> per draw.
\<close>

record trace =
  lambda0 :: "real list list"
  beta :: "real list"

text \<open>
  \<^verbatim>\<open>base_hazard = trace['lambda0']\<close>\<^verbatim>\<open>
  met_hazard = trace['lambda0'] * np.exp(np.atleast_2d(trace['beta']).T)\<close>
  The transposed coefficients form a column, so broadcasting multiplies the row of
  draw \<open>s\<close> by \<open>exp (beta[s])\<close>.
\<close>

definition base_hazard :: "trace \<Rightarrow> real list list" where
  "base_hazard tr = lambda0 tr"

definition met_hazard :: "trace \<Rightarrow> real list list" where
  "met_hazard tr = map2 (\<lambda>row b. map (\<lambda>l. l * exp b) row) (lambda0 tr) (beta tr)"

subsection \<open>The dataset and the interval partition\<close>

text \<open>
  One row of the table \<^verbatim>\<open>df\<close> per subject: the months under observation, whether
  the death was observed (\<^verbatim>\<open>df.event\<close>, cast to 0/1 by
  \<^verbatim>\<open>astype(np.int64)\<close>), and whether the cancer had metastized.
  \<^verbatim>\<open>n_patients = df.shape[0]\<close>, \<^verbatim>\<open>patients = np.arange(n_patients)\<close>.
  The time column is numeric; a column of whole months is the case where every
  \<open>time\<close> is an integer.
\<close>

record observation =
  time :: real
  event :: bool
  metastized :: bool

type_synonym dataframe = "observation list"

datatype error = IndexError | ValueError

definition n_patients :: "dataframe \<Rightarrow> nat" where
  "n_patients df = length df"

text \<open>\<^verbatim>\<open>df.time.max()\<close>, for a table with at least one row.\<close>

definition time_max :: "dataframe \<Rightarrow> real" where
  "time_max df = Max (set (map time df))"

text \<open>
  \<^verbatim>\<open>np.arange(0, stop, step)\<close> for a positive step: \<open>\<lceil>stop / step\<rceil>\<close> entries
  (none when that is not positive), entry \<open>i\<close> being \<open>i * step\<close>.
\<close>

definition arange :: "real \<Rightarrow> real \<Rightarrow> real list" where
  "arange stop step = map (\<lambda>i. real i * step) [0..<nat \<lceil>stop / step\<rceil>]"

text \<open>
  \<^verbatim>\<open>interval_bounds = np.arange(0, df.time.max() + interval_length + 1, interval_length)\<close>
  The maximum of an empty column is NaN, for which \<^verbatim>\<open>np.arange\<close> raises
  \<^verbatim>\<open>ValueError\<close>.
\<close>

definition interval_bounds :: "dataframe \<Rightarrow> error + real list" where
  "interval_bounds df =
     (if df = [] then Inl ValueError
      else Inr (arange (time_max df + real_of_int interval_length + 1)
                  (real_of_int interval_length)))"

text \<open>\<^verbatim>\<open>n_intervals = interval_bounds.size - 1\<close>\<close>

definition n_intervals :: "real list \<Rightarrow> int" where
  "n_intervals bounds = int (length bounds) - 1"

text \<open>
  \<^verbatim>\<open>last_period = np.floor((df.time - 0.01) / interval_length).astype(int)\<close>
\<close>

definition last_period :: "dataframe \<Rightarrow> int list" where
  "last_period df =
     map (\<lambda>ob. \<lfloor>(time ob - 1 / 100) / real_of_int interval_length\<rfloor>) df"

subsection \<open>Indexed assignment\<close>

text \<open>
  An integer index \<open>j\<close> into an axis of length \<open>n\<close>: NumPy counts a negative index
  from the end, and raises \<^verbatim>\<open>IndexError\<close> outside \<open>-n \<le> j < n\<close>.
\<close>

definition np_index :: "nat \<Rightarrow> int \<Rightarrow> error + nat" where
  "np_index n j =
     (if 0 \<le> j \<and> j < int n then Inr (nat j)
      else if - int n \<le> j \<and> j < 0 then Inr (nat (j + int n))
      else Inl IndexError)"

text \<open>
  The assignments \<^verbatim>\<open>a[patients, last_period] = values\<close> write one entry in each
  row; the statement raises when any index is out of range.
\<close>

fun traverse :: "('a \<Rightarrow> error + 'b) \<Rightarrow> 'a list \<Rightarrow> error + 'b list" where
  "traverse f [] = Inr []"
| "traverse f (x # xs) =
     (case f x of
        Inl e \<Rightarrow> Inl e
      | Inr y \<Rightarrow> (case traverse f xs of Inl e \<Rightarrow> Inl e | Inr ys \<Rightarrow> Inr (y # ys)))"

subsection \<open>Death and exposure matrices\<close>

text \<open>
  \<^verbatim>\<open>death = np.zeros((n_patients, n_intervals))\<close>\<^verbatim>\<open>
  death[patients, last_period] = df.event\<close>
  \<^verbatim>\<open>np.zeros\<close> raises \<^verbatim>\<open>ValueError\<close> for a negative dimension.
\<close>

definition death_row :: "nat \<Rightarrow> observation \<times> int \<Rightarrow> error + real list" where
  "death_row n = (\<lambda>(ob, lp).
     case np_index n lp of
       Inl e \<Rightarrow> Inl e
     | Inr k \<Rightarrow> Inr ((replicate n 0)[k := of_bool (event ob)]))"

definition death :: "dataframe \<Rightarrow> error + real list list" where
  "death df =
     (case interval_bounds df of
        Inl e \<Rightarrow> Inl e
      | Inr bounds \<Rightarrow>
          if n_intervals bounds < 0 then Inl ValueError
          else traverse (death_row (nat (n_intervals bounds))) (zip df (last_period df)))"

text \<open>
  \<^verbatim>\<open>exposure = np.greater_equal.outer(df.time, interval_bounds[:-1]) * interval_length\<close>\<^verbatim>\<open>
  exposure[patients, last_period] = df.time - interval_bounds[last_period]\<close>
  The outer comparison is a Boolean array and \<^verbatim>\<open>interval_length\<close> an integer, so
  \<^verbatim>\<open>exposure\<close> is an integer array; the indexed assignment casts the assigned
  differences to the array's element type, which drops their fractional part
  (rounding toward zero).
\<close>

definition trunc :: "real \<Rightarrow> int" where
  "trunc x = (if 0 \<le> x then \<lfloor>x\<rfloor> else \<lceil>x\<rceil>)"

definition exposure_row :: "real list \<Rightarrow> observation \<times> int \<Rightarrow> error + int list" where
  "exposure_row bounds = (\<lambda>(ob, lp).
     case np_index (length bounds) lp of
       Inl e \<Rightarrow> Inl e
     | Inr kb \<Rightarrow>
         (case np_index (length (butlast bounds)) lp of
            Inl e \<Rightarrow> Inl e
          | Inr k \<Rightarrow>
              Inr ((map (\<lambda>b. if b \<le> time ob then interval_length else 0) (butlast bounds))
                     [k := trunc (time ob - bounds ! kb)])))"

definition exposure :: "dataframe \<Rightarrow> error + int list list" where
  "exposure df =
     (case interval_bounds df of
        Inl e \<Rightarrow> Inl e
      | Inr bounds \<Rightarrow> traverse (exposure_row bounds) (zip df (last_period df)))"

subsection \<open>Posterior summaries for plotting\<close>

text \<open>
  Reductions along \<^verbatim>\<open>axis=0\<close> of a two-dimensional array (a list of rows of one
  length, one row per draw): column \<open>j\<close> collects entry \<open>j\<close> of every row.
\<close>

definition column :: "real list list \<Rightarrow> nat \<Rightarrow> real list" where
  "column a j = map (\<lambda>row. row ! j) a"

definition n_columns :: "real list list \<Rightarrow> nat" where
  "n_columns a = length (hd a)"

text \<open>\<^verbatim>\<open>a.mean(axis=0)\<close>\<close>

definition mean_axis0 :: "real list list \<Rightarrow> real list" where
  "mean_axis0 a = map (\<lambda>j. sum_list (column a j) / real (length a)) [0..<n_columns a]"

text \<open>
  \<^verbatim>\<open>np.percentile(a, q)\<close> of a one-dimensional array with the default linear
  interpolation: the sorted data is read at the fractional position
  \<open>q / 100 * (N - 1)\<close>, weighting the two neighbouring entries. NumPy raises
  \<^verbatim>\<open>ValueError\<close> for \<open>q\<close> outside \<open>[0, 100]\<close>; an empty array has no
  percentile.
\<close>

definition percentile :: "real list \<Rightarrow> real \<Rightarrow> error + real" where
  "percentile a q =
     (if q < 0 \<or> 100 < q \<or> a = [] then Inl ValueError
      else
        let ap = sort a;
            indices = q / 100 * real (length ap - 1);
            indices_below = nat \<lfloor>indices\<rfloor>;
            indices_above = min (indices_below + 1) (length ap - 1);
            weights_above = indices - real indices_below;
            weights_below = 1 - weights_above
        in Inr (ap ! indices_below * weights_below + ap ! indices_above * weights_above))"

text \<open>\<^verbatim>\<open>np.percentile(a, q, axis=0)\<close> for one percentile \<open>q\<close>\<close>

definition percentile_axis0 :: "real list list \<Rightarrow> real \<Rightarrow> error + real list" where
  "percentile_axis0 a q = traverse (\<lambda>j. percentile (column a j) q) [0..<n_columns a]"

text \<open>
  \<^verbatim>\<open>def plot_with_hpd(x, hazard, f, ax, color=None, label=None, alpha=0.05):
      mean = f(hazard.mean(axis=0))
      percentiles = 100 * np.array([alpha / 2., 1. - alpha / 2.])
      hpd = np.percentile(f(hazard), percentiles, axis=0)
      ax.fill_between(x, hpd[0], hpd[1], color=color, alpha=0.25)
      ax.step(x, mean, color=color, label=label);\<close>
  The model returns what is drawn: the central curve \<^verbatim>\<open>mean\<close> and the band
  \<^verbatim>\<open>hpd[0]\<close>, \<^verbatim>\<open>hpd[1]\<close>. The notebook passes \<^verbatim>\<open>cum_hazard\<close> or
  \<^verbatim>\<open>survival\<close> for \<^verbatim>\<open>f\<close>, which act along the last axis: on the array of
  draws \<^verbatim>\<open>f\<close> is applied to every row.
\<close>

record hpd_plot =
  mean :: "real list"
  hpd0 :: "real list"
  hpd1 :: "real list"

definition plot_with_hpd ::
  "real list list \<Rightarrow> (real list \<Rightarrow> real list) \<Rightarrow> real \<Rightarrow> error + hpd_plot" where
  "plot_with_hpd hazard f alpha =
     (if hazard = [] then Inl ValueError
      else
        let mean = f (mean_axis0 hazard) in
        case percentile_axis0 (map f hazard) (100 * (alpha / 2)) of
          Inl e \<Rightarrow> Inl e
        | Inr lower \<Rightarrow>
            (case percentile_axis0 (map f hazard) (100 * (1 - alpha / 2)) of
               Inl e \<Rightarrow> Inl e
             | Inr upper \<Rightarrow> Inr \<lparr>mean = mean, hpd0 = lower, hpd1 = upper\<rparr>))"

section \<open>Properties\<close>

subsection \<open>Running sums\<close>

lemma length_cumsum_from [simp]: "length (cumsum_from acc xs) = length xs"
  by (induction xs arbitrary: acc) simp_all

lemma cumsum_from_nth:
  "i < length xs \<Longrightarrow> cumsum_from acc xs ! i = acc + sum_list (take (Suc i) xs)"
proof (induction xs arbitrary: acc i)
  case Nil
  then show ?case by simp
next
  case (Cons x xs)
  show ?case
  proof (cases i)
    case 0
    then show ?thesis by simp
  next
    case (Suc k)
    with Cons.prems have "k < length xs" by simp
    from Cons.IH [OF this, of "acc + x"] Suc show ?thesis by simp
  qed
qed

lemma length_cum_hazard [simp]: "length (cum_hazard h) = length h"
  by (simp add: cum_hazard_def cumsum_def)

lemma length_survival [simp]: "length (survival h) = length h"
  by (simp add: survival_def)

lemma cum_hazard_nth:
  "i < length h \<Longrightarrow>
     cum_hazard h ! i = real_of_int interval_length * sum_list (take (Suc i) h)"
  by (simp add: cum_hazard_def cumsum_def cumsum_from_nth take_map sum_list_const_mult)

lemma survival_nth:
  "i < length h \<Longrightarrow> survival h ! i = np_exp (- (cum_hazard h ! i))"
  by (simp add: survival_def)

lemma sum_list_take_mono:
  fixes xs :: "real list"
  assumes "\<forall>x \<in> set xs. 0 \<le> x" and "i \<le> j"
  shows "sum_list (take i xs) \<le> sum_list (take j xs)"
proof -
  from \<open>i \<le> j\<close> have "take j xs = take i xs @ take (j - i) (drop i xs)"
    by (metis le_add_diff_inverse take_add)
  moreover have "0 \<le> sum_list (take (j - i) (drop i xs))"
    using assms(1) by (intro sum_list_nonneg) (auto dest: in_set_takeD in_set_dropD)
  ultimately show ?thesis by simp
qed

lemma sum_list_take_pointwise:
  fixes xs ys :: "real list"
  assumes "list_all2 (\<le>) xs ys"
  shows "sum_list (take n xs) \<le> sum_list (take n ys)"
  using assms
proof (induction xs ys arbitrary: n rule: list_all2_induct)
  case Nil
  then show ?case by simp
next
  case (Cons x xs y ys)
  then show ?case by (cases n) (simp_all add: add_mono)
qed

subsection \<open>Cumulative hazard\<close>

text \<open>
  C4: for a sequence of non-negative hazard values, the sequence returned by
  \<^verbatim>\<open>cum_hazard\<close> is monotonically non-decreasing.
\<close>

theorem cum_hazard_nondecreasing:
  assumes "\<forall>x \<in> set hazard. 0 \<le> x"
  shows "sorted (cum_hazard hazard)"
proof -
  have "cum_hazard hazard ! i \<le> cum_hazard hazard ! j"
    if "i \<le> j" "j < length hazard" for i j
  proof -
    from that have "sum_list (take (Suc i) hazard) \<le> sum_list (take (Suc j) hazard)"
      by (intro sum_list_take_mono assms) simp
    with that show ?thesis
      by (simp add: cum_hazard_nth interval_length_def)
  qed
  then show ?thesis by (simp add: sorted_iff_nth_mono)
qed

theorem cum_hazard_nondecreasing_witness:
  "cum_hazard [1, 0, 2] = [3, 3, 9] \<and> sorted (cum_hazard [1, 0, 2])"
  using cum_hazard_nondecreasing [of "[1, 0, 2]"]
  by (simp add: cum_hazard_def cumsum_def interval_length_def)

subsection \<open>Exponential with underflow\<close>

lemma exp_Taylor_lower:
  fixes x :: real
  assumes "0 \<le> x"
  shows "(\<Sum>m<n. x ^ m / fact m) \<le> exp x"
proof -
  obtain t where "exp x = (\<Sum>m<n. x ^ m / fact m) + (exp t / fact n) * x ^ n"
    using Maclaurin_exp_le [of x n] by blast
  moreover from assms have "0 \<le> (exp t / fact n) * x ^ n" by simp
  ultimately show ?thesis by linarith
qed

lemma exp_Taylor_upper:
  fixes x :: real
  assumes "0 \<le> x"
  shows "exp x * (1 - x ^ n / fact n) \<le> (\<Sum>m<n. x ^ m / fact m)"
proof -
  define r where "r = x ^ n / fact n"
  define S where "S = (\<Sum>m<n. x ^ m / fact m)"
  obtain t where t: "\<bar>t\<bar> \<le> \<bar>x\<bar>"
    and "exp x = (\<Sum>m<n. x ^ m / fact m) + (exp t / fact n) * x ^ n"
    using Maclaurin_exp_le [of x n] by blast
  then have e: "exp x = S + exp t * r"
    by (simp add: r_def S_def)
  from assms have "0 \<le> r" by (simp add: r_def)
  moreover from t assms have "exp t \<le> exp x" by simp
  ultimately have "exp t * r \<le> exp x * r"
    by (rule mult_right_mono [rotated])
  with e have "exp x - exp x * r \<le> S" by linarith
  then show ?thesis
    by (simp add: r_def S_def algebra_simps)
qed

lemma two_le_exp: "2 \<le> exp (746 / 1075 :: real)"
proof -
  have "(2::real) \<le> (\<Sum>m<6. (746 / 1075) ^ m / fact m)"
    by (simp add: lessThan_Suc eval_nat_numeral fact_numeral)
  also have "\<dots> \<le> exp (746 / 1075)"
    by (rule exp_Taylor_lower) simp
  finally show ?thesis .
qed

lemma exp_less_two: "exp (149 / 215 :: real) < 2"
proof -
  have "exp (149 / 215 :: real) * (1 - (149 / 215) ^ 9 / fact 9) \<le> (\<Sum>m<9. (149 / 215) ^ m / fact m)"
    by (rule exp_Taylor_upper) simp
  also have "\<dots> < 2 * (1 - (149 / 215) ^ 9 / fact 9)"
    by (simp add: lessThan_Suc eval_nat_numeral fact_numeral)
  finally show ?thesis
    by (simp add: eval_nat_numeral fact_numeral)
qed


lemma np_exp_nonneg: "0 \<le> np_exp x"
  by (simp add: np_exp_def)

lemma np_exp_le_one: "x \<le> 0 \<Longrightarrow> np_exp x \<le> 1"
  by (simp add: np_exp_def)

lemma np_exp_mono:
  assumes "x \<le> y"
  shows "np_exp x \<le> np_exp y"
proof (cases "exp y \<le> underflow_bound")
  case True
  moreover from assms have "exp x \<le> exp y" by simp
  ultimately have "exp x \<le> underflow_bound" by linarith
  with True show ?thesis by (simp add: np_exp_def)
next
  case False
  have "np_exp x \<le> exp x" by (simp add: np_exp_def)
  also from assms have "\<dots> \<le> exp y" by simp
  also from False have "\<dots> = np_exp y" by (simp add: np_exp_def)
  finally show ?thesis .
qed

lemma np_exp_positive:
  assumes "- 745 \<le> x"
  shows "0 < np_exp x"
proof -
  have "exp (745::real) = exp (of_nat 1075 * (149 / 215))" by simp
  also have "\<dots> = exp (149 / 215) ^ 1075" by (rule exp_of_nat_mult)
  also have "\<dots> < 2 ^ 1075"
    using exp_less_two by (intro power_strict_mono) simp_all
  finally have "1 / 2 ^ 1075 < 1 / exp (745::real)"
    by (intro divide_strict_left_mono) simp_all
  also have "\<dots> = exp (- 745)" by (simp add: exp_minus inverse_eq_divide)
  also from assms have "\<dots> \<le> exp x" by simp
  finally have "underflow_bound < exp x"
    unfolding underflow_bound_def .
  then show ?thesis by (simp add: np_exp_def)
qed

lemma np_exp_underflow:
  assumes "x \<le> - 746"
  shows "np_exp x = 0"
proof -
  have "(2::real) ^ 1075 \<le> exp (746 / 1075) ^ 1075"
    using two_le_exp by (intro power_mono) simp_all
  also have "\<dots> = exp (of_nat 1075 * (746 / 1075))" by (rule exp_of_nat_mult [symmetric])
  also have "\<dots> = exp 746" by simp
  finally have "1 / exp (746::real) \<le> 1 / 2 ^ 1075"
    by (intro divide_left_mono) simp_all
  moreover have "exp (- 746 :: real) = 1 / exp 746" by (simp add: exp_minus inverse_eq_divide)
  moreover from assms have "exp x \<le> exp (- 746)" by simp
  ultimately have "exp x \<le> underflow_bound"
    unfolding underflow_bound_def by linarith
  then show ?thesis by (simp add: np_exp_def)
qed

subsection \<open>Survival function\<close>

lemma cum_hazard_nonneg:
  assumes "\<forall>x \<in> set hazard. 0 \<le> x" and "i < length hazard"
  shows "0 \<le> cum_hazard hazard ! i"
proof -
  have "0 \<le> sum_list (take (Suc i) hazard)"
    using assms(1) by (intro sum_list_nonneg) (auto dest: in_set_takeD)
  with assms(2) show ?thesis
    by (simp add: cum_hazard_nth interval_length_def)
qed

text \<open>
  C3, as the code has it: for a sequence of non-negative hazard values, the sequence
  returned by \<^verbatim>\<open>survival\<close> is non-increasing and every entry lies in the closed
  interval \<open>[0, 1]\<close>. An entry is strictly positive as long as the cumulative hazard
  up to it is at most 745, and it is exactly 0 once the cumulative hazard has
  reached 746 (\<^verbatim>\<open>np.exp\<close> underflows at about 745.13).
\<close>

theorem survival_nonincreasing_bounded:
  assumes "\<forall>x \<in> set hazard. 0 \<le> x"
  shows "sorted_wrt (\<ge>) (survival hazard) \<and>
         (\<forall>s \<in> set (survival hazard). 0 \<le> s \<and> s \<le> 1) \<and>
         (\<forall>i < length hazard.
            (cum_hazard hazard ! i \<le> 745 \<longrightarrow> 0 < survival hazard ! i) \<and>
            (746 \<le> cum_hazard hazard ! i \<longrightarrow> survival hazard ! i = 0))"
proof (intro conjI)
  have "cum_hazard hazard ! i \<le> cum_hazard hazard ! j"
    if "i < j" "j < length hazard" for i j
  proof -
    from that have "sum_list (take (Suc i) hazard) \<le> sum_list (take (Suc j) hazard)"
      by (intro sum_list_take_mono assms) simp
    with that show ?thesis
      by (simp add: cum_hazard_nth interval_length_def)
  qed
  then have "survival hazard ! j \<le> survival hazard ! i"
    if "i < j" "j < length hazard" for i j
    using that by (simp add: survival_nth np_exp_mono)
  then show "sorted_wrt (\<ge>) (survival hazard)"
    by (simp add: sorted_wrt_iff_nth_less)
next
  show "\<forall>s \<in> set (survival hazard). 0 \<le> s \<and> s \<le> 1"
  proof
    fix s assume "s \<in> set (survival hazard)"
    then obtain i where i: "i < length hazard" and s: "s = survival hazard ! i"
      by (auto simp: in_set_conv_nth)
    from cum_hazard_nonneg [OF assms i] show "0 \<le> s \<and> s \<le> 1"
      by (simp add: s survival_nth i np_exp_nonneg np_exp_le_one)
  qed
next
  show "\<forall>i < length hazard.
      (cum_hazard hazard ! i \<le> 745 \<longrightarrow> 0 < survival hazard ! i) \<and>
      (746 \<le> cum_hazard hazard ! i \<longrightarrow> survival hazard ! i = 0)"
    by (simp add: survival_nth np_exp_positive np_exp_underflow)
qed

theorem survival_nonincreasing_bounded_witness:
  "cum_hazard [1, 0, 2, 300] = [3, 3, 9, 909] \<and>
   sorted_wrt (\<ge>) (survival [1, 0, 2, 300]) \<and>
   0 < survival [1, 0, 2, 300] ! 2 \<and> survival [1, 0, 2, 300] ! 2 \<le> 1 \<and>
   survival [1, 0, 2, 300] ! 3 = 0"
proof -
  let ?h = "[1, 0, 2, 300 :: real]"
  have c: "cum_hazard ?h = [3, 3, 9, 909]"
    by (simp add: cum_hazard_def cumsum_def interval_length_def)
  have "\<forall>x \<in> set ?h. 0 \<le> x"
    by simp
  note t = survival_nonincreasing_bounded [OF this]
  from t have s: "sorted_wrt (\<ge>) (survival ?h)"
    by blast
  from t have "2 < length ?h \<longrightarrow> cum_hazard ?h ! 2 \<le> 745 \<longrightarrow> 0 < survival ?h ! 2"
    by blast
  then have p: "0 < survival ?h ! 2"
    by (simp add: c)
  from t have "3 < length ?h \<longrightarrow> 746 \<le> cum_hazard ?h ! 3 \<longrightarrow> survival ?h ! 3 = 0"
    by blast
  then have z: "survival ?h ! 3 = 0"
    by (simp add: c)
  have "survival ?h ! 2 \<in> set (survival ?h)"
    by (intro nth_mem) simp
  with t have "survival ?h ! 2 \<le> 1"
    by blast
  with c s p z show ?thesis
    by blast
qed

text \<open>
  The lower bound is not strict: a single interval of hazard 249 has cumulative
  hazard 747, where \<^verbatim>\<open>np.exp\<close> has underflowed and the survival value is 0.
\<close>

theorem survival_underflow_counterexample:
  "cum_hazard [249] = [747] \<and> survival [249] = [0] \<and> \<not> 0 < survival [249] ! 0"
proof -
  have c: "cum_hazard [249] = [747]"
    by (simp add: cum_hazard_def cumsum_def interval_length_def)
  have "np_exp (- 747) = 0"
    by (rule np_exp_underflow) simp
  with c show ?thesis
    by (simp add: survival_def)
qed



lemma survival_antitone_aux:
  assumes "list_all2 (\<le>) h1 h2"
  shows "list_all2 (\<ge>) (survival h1) (survival h2)"
proof -
  from assms have len: "length h1 = length h2"
    by (rule list_all2_lengthD)
  have "survival h2 ! i \<le> survival h1 ! i" if "i < length h1" for i
  proof -
    have "sum_list (take (Suc i) h1) \<le> sum_list (take (Suc i) h2)"
      by (rule sum_list_take_pointwise [OF assms])
    with that len show ?thesis
      by (simp add: survival_nth cum_hazard_nth interval_length_def np_exp_mono)
  qed
  with len show ?thesis
    by (simp add: list_all2_conv_all_nth)
qed

text \<open>
  C10: the survival function is antitone in the hazard. For hazard sequences of the
  same length with \<open>h1 \<le> h2\<close> pointwise, \<open>survival h1 \<ge> survival h2\<close> pointwise;
  so in every draw whose coefficient \<open>beta\<close> is non-negative (scaling factor
  \<open>exp beta \<ge> 1\<close>) and whose baseline hazards are non-negative, the survival curve
  of the metastized group lies on or below the baseline curve.
\<close>

theorem survival_antitone:
  "(list_all2 (\<le>) h1 h2 \<longrightarrow> list_all2 (\<ge>) (survival h1) (survival h2)) \<and>
   (s < length (lambda0 tr) \<and> s < length (beta tr) \<and> 0 \<le> beta tr ! s \<and>
      (\<forall>x \<in> set (lambda0 tr ! s). 0 \<le> x) \<longrightarrow>
    list_all2 (\<ge>) (survival (base_hazard tr ! s)) (survival (met_hazard tr ! s)))"
proof (intro conjI impI)
  assume "list_all2 (\<le>) h1 h2"
  then show "list_all2 (\<ge>) (survival h1) (survival h2)"
    by (rule survival_antitone_aux)
next
  assume a: "s < length (lambda0 tr) \<and> s < length (beta tr) \<and> 0 \<le> beta tr ! s \<and>
      (\<forall>x \<in> set (lambda0 tr ! s). 0 \<le> x)"
  then have met: "met_hazard tr ! s = map (\<lambda>l. l * exp (beta tr ! s)) (lambda0 tr ! s)"
    by (simp add: met_hazard_def)
  from a have c: "1 \<le> exp (beta tr ! s)" by simp
  have "l \<le> l * exp (beta tr ! s)" if "l \<in> set (lambda0 tr ! s)" for l
  proof -
    from a that have "0 \<le> l" by blast
    with c have "l * 1 \<le> l * exp (beta tr ! s)"
      by (intro mult_left_mono)
    then show ?thesis by simp
  qed
  then have "list_all2 (\<le>) (lambda0 tr ! s) (met_hazard tr ! s)"
    by (simp add: met list_all2_conv_all_nth)
  then show "list_all2 (\<ge>) (survival (base_hazard tr ! s)) (survival (met_hazard tr ! s))"
    unfolding base_hazard_def by (rule survival_antitone_aux)
qed

theorem survival_antitone_witness:
  "list_all2 (\<ge>) (survival [0, 1]) (survival [1, 1]) \<and>
   list_all2 (\<ge>) (survival (base_hazard \<lparr>lambda0 = [[1, 2]], beta = [0]\<rparr> ! 0))
     (survival (met_hazard \<lparr>lambda0 = [[1, 2]], beta = [0]\<rparr> ! 0))"
  using survival_antitone [of "[0, 1]" "[1, 1]" 0 "\<lparr>lambda0 = [[1, 2]], beta = [0]\<rparr>"]
  by simp

subsection \<open>Interval partition and index arithmetic\<close>

lemma length_arange [simp]: "length (arange stop step) = nat \<lceil>stop / step\<rceil>"
  by (simp add: arange_def)

lemma arange_nth: "i < nat \<lceil>stop / step\<rceil> \<Longrightarrow> arange stop step ! i = real i * step"
  by (simp add: arange_def)

lemma time_max_ge: "ob \<in> set df \<Longrightarrow> time ob \<le> time_max df"
  by (simp add: time_max_def)

lemma time_max_in: "df \<noteq> [] \<Longrightarrow> \<exists>ob \<in> set df. time_max df = time ob"
proof -
  assume "df \<noteq> []"
  then have "Max (set (map time df)) \<in> set (map time df)"
    by (intro Max_in) simp_all
  then show ?thesis by (auto simp: time_max_def)
qed

lemma interval_bounds_Inr:
  "df \<noteq> [] \<Longrightarrow> interval_bounds df = Inr (arange (time_max df + 4) 3)"
  by (simp add: interval_bounds_def interval_length_def add.commute)

lemma bounds_count_ge2:
  fixes m :: real
  assumes "0 < m"
  shows "2 \<le> \<lceil>(m + 4) / 3\<rceil>"
proof -
  from assms have "1 < (m + 4) / 3" by simp
  then have "1 < \<lceil>(m + 4) / 3\<rceil>" by (simp add: less_ceiling_iff)
  then show ?thesis by simp
qed

lemma last_bound_gt:
  fixes m :: real
  shows "m + 1 \<le> 3 * (of_int \<lceil>(m + 4) / 3\<rceil> - 1)"
proof -
  define c where "c = real_of_int \<lceil>(m + 4) / 3\<rceil>"
  have "(m + 4) / 3 \<le> c"
    unfolding c_def by (rule le_of_int_ceiling)
  then have "m + 4 \<le> c * 3"
    by (simp add: pos_divide_le_eq)
  then have "m + 1 \<le> 3 * (c - 1)"
    by simp
  then show ?thesis
    unfolding c_def .
qed

lemma last_period_upper:
  fixes t m :: real
  assumes "t \<le> m"
  shows "\<lfloor>(t - 1 / 100) / 3\<rfloor> < \<lceil>(m + 4) / 3\<rceil> - 1"
proof -
  have "of_int \<lfloor>(t - 1 / 100) / 3\<rfloor> \<le> (t - 1 / 100) / 3" by (rule of_int_floor_le)
  also from assms have "\<dots> < (m + 4) / 3 - 1" by (simp add: field_simps)
  also have "\<dots> \<le> of_int \<lceil>(m + 4) / 3\<rceil> - 1"
    using le_of_int_ceiling [of "(m + 4) / 3"] by simp
  finally have "real_of_int \<lfloor>(t - 1 / 100) / 3\<rfloor> < real_of_int (\<lceil>(m + 4) / 3\<rceil> - 1)"
    by simp
  then show ?thesis by (simp only: of_int_less_iff)
qed

lemma last_period_lower:
  fixes t :: real
  assumes "0 < t"
  shows "- 1 \<le> \<lfloor>(t - 1 / 100) / 3\<rfloor>"
proof -
  from assms have "- 1 \<le> (t - 1 / 100) / 3" by simp
  then show ?thesis by (simp add: le_floor_iff)
qed

lemma last_period_nonneg:
  fixes t :: real
  assumes "1 / 100 \<le> t"
  shows "0 \<le> \<lfloor>(t - 1 / 100) / 3\<rfloor>"
  using assms by (simp add: le_floor_iff)

text \<open>
  C7: for a dataset with a positive maximum observed time, \<^verbatim>\<open>interval_bounds\<close>
  starts at 0, each bound exceeds its predecessor by exactly \<^verbatim>\<open>interval_length\<close>
  (so the sequence is strictly increasing and the bins are contiguous and of one
  width), and the last bound strictly exceeds the maximum observed time.
\<close>

theorem interval_bounds_arithmetic:
  assumes "df \<noteq> []" and "0 < time_max df"
  shows "\<exists>bounds. interval_bounds df = Inr bounds \<and>
           2 \<le> length bounds \<and> hd bounds = 0 \<and>
           (\<forall>i. Suc i < length bounds \<longrightarrow>
                bounds ! Suc i = bounds ! i + real_of_int interval_length) \<and>
           sorted_wrt (<) bounds \<and> time_max df < last bounds"
proof -
  define m where "m = time_max df"
  define bounds where "bounds = arange (m + 4) 3"
  define N where "N = nat \<lceil>(m + 4) / 3\<rceil>"
  have len: "length bounds = N"
    by (simp add: bounds_def N_def)
  have nth: "bounds ! i = real i * 3" if "i < N" for i
    using that by (simp add: bounds_def N_def arange_nth)
  from assms(2) have "2 \<le> \<lceil>(m + 4) / 3\<rceil>"
    unfolding m_def by (rule bounds_count_ge2)
  then have N2: "2 \<le> N"
    unfolding N_def by linarith
  have eq: "interval_bounds df = Inr bounds"
    using assms(1) by (simp add: interval_bounds_Inr bounds_def m_def)
  from N2 have ne: "bounds \<noteq> []"
    using len by auto
  have hd0: "hd bounds = 0"
    using N2 nth [of 0] ne by (simp add: hd_conv_nth)
  have step: "bounds ! Suc i = bounds ! i + real_of_int interval_length"
    if "Suc i < length bounds" for i
    using that len by (simp add: nth interval_length_def algebra_simps)
  have incr: "sorted_wrt (<) bounds"
    by (simp add: sorted_wrt_iff_nth_less len nth)
  have "real (N - 1) = real_of_int \<lceil>(m + 4) / 3\<rceil> - 1"
    using N2 by (simp add: N_def of_nat_diff)
  then have "last bounds = 3 * (real_of_int \<lceil>(m + 4) / 3\<rceil> - 1)"
    using N2 ne len by (simp add: last_conv_nth nth)
  with last_bound_gt [of m] have "m < last bounds"
    by simp
  with eq N2 len hd0 step incr show ?thesis
    unfolding m_def by blast
qed

theorem interval_bounds_arithmetic_witness:
  "interval_bounds [\<lparr>time = 5, event = True, metastized = False\<rparr>,
                    \<lparr>time = 2, event = False, metastized = True\<rparr>] = Inr [0, 3, 6] \<and>
   (\<exists>bounds. interval_bounds [\<lparr>time = 5, event = True, metastized = False\<rparr>,
                    \<lparr>time = 2, event = False, metastized = True\<rparr>] = Inr bounds \<and>
      hd bounds = 0 \<and> sorted_wrt (<) bounds \<and> 5 < last bounds)"
proof -
  let ?df = "[\<lparr>time = 5, event = True, metastized = False\<rparr>,
              \<lparr>time = 2, event = False, metastized = True\<rparr>]"
  have ne: "?df \<noteq> []" by simp
  have m: "time_max ?df = 5" by (simp add: time_max_def)
  then have pos: "0 < time_max ?df" by simp
  have "interval_bounds ?df = Inr [0, 3, 6]" by code_simp
  with interval_bounds_arithmetic [OF ne pos] m show ?thesis by auto
qed

subsection \<open>Death matrix\<close>

lemma time_max_pos:
  assumes "df \<noteq> []" and "\<forall>ob \<in> set df. 0 < time ob"
  shows "0 < time_max df"
  using time_max_in [OF assms(1)] assms(2) by auto

lemma np_index_Inr:
  assumes "- 1 \<le> j" and "j < int n" and "0 < n"
  shows "np_index n j = Inr (if 0 \<le> j then nat j else n - 1)"
  using assms by (auto simp: np_index_def)

lemma traverse_rows:
  assumes "\<forall>ob \<in> set df. f (ob, \<lfloor>(time ob - 1 / 100) / 3\<rfloor>) = Inr (g ob)"
  shows "traverse f (zip df (last_period df)) = Inr (map g df)"
  using assms by (induction df) (simp_all add: last_period_def interval_length_def)

lemma indicator_row_set:
  fixes v :: real
  assumes "k < n"
  shows "set ((replicate n 0)[k := v]) \<subseteq> {0, v}"
  using assms set_update_subset_insert [of "replicate n (0::real)" k v] by auto

lemma indicator_row_count:
  assumes "k < n"
  shows "count_list ((replicate n (0::real))[k := of_bool e]) 1 = (if e then 1 else 0)"
proof -
  from assms have "(replicate n (0::real))[k := of_bool e]
      = replicate k 0 @ of_bool e # replicate (n - Suc k) 0"
    by (simp add: list_eq_iff_nth_eq nth_list_update nth_append nth_Cons')
  then show ?thesis
    by (simp add: count_list_0_iff)
qed


lemma n_intervals_pos:
  assumes "df \<noteq> []" and "0 < time_max df"
  obtains bounds where "interval_bounds df = Inr bounds"
    and "bounds = arange (time_max df + 4) 3"
    and "2 \<le> length bounds"
    and "n_intervals bounds = \<lceil>(time_max df + 4) / 3\<rceil> - 1"
proof -
  define bounds where "bounds = arange (time_max df + 4) 3"
  from assms(2) have c: "2 \<le> \<lceil>(time_max df + 4) / 3\<rceil>"
    by (rule bounds_count_ge2)
  have l: "length bounds = nat \<lceil>(time_max df + 4) / 3\<rceil>"
    by (simp add: bounds_def)
  from c l have "2 \<le> length bounds"
    by linarith
  moreover from c l have "n_intervals bounds = \<lceil>(time_max df + 4) / 3\<rceil> - 1"
    unfolding n_intervals_def by linarith
  moreover from assms(1) have "interval_bounds df = Inr bounds"
    by (simp add: interval_bounds_Inr bounds_def)
  ultimately show ?thesis
    using bounds_def by (intro that [of bounds])
qed

text \<open>
  C2, as the code has it: for a dataset of positive observed times, every entry of
  the death matrix is 0 or 1, and the row of a subject holds exactly one 1 when the
  subject's death was observed (\<^verbatim>\<open>event\<close> is 1) and no 1 at all when the
  observation is censored (\<^verbatim>\<open>event\<close> is 0).
\<close>

theorem death_rows_indicator:
  assumes ne: "df \<noteq> []" and pos: "\<forall>ob \<in> set df. 0 < time ob"
  shows "\<exists>D bounds. interval_bounds df = Inr bounds \<and> death df = Inr D \<and>
           length D = n_patients df \<and>
           (\<forall>i < n_patients df.
              length (D ! i) = nat (n_intervals bounds) \<and> set (D ! i) \<subseteq> {0, 1} \<and>
              count_list (D ! i) 1 = (if event (df ! i) then 1 else 0))"
proof -
  from ne pos have m: "0 < time_max df"
    by (rule time_max_pos)
  from ne m obtain bounds where eq: "interval_bounds df = Inr bounds"
    and len: "2 \<le> length bounds"
    and nint: "n_intervals bounds = \<lceil>(time_max df + 4) / 3\<rceil> - 1"
    by (rule n_intervals_pos)
  define n where "n = nat (n_intervals bounds)"
  from len have n: "n_intervals bounds = int n" "0 < n"
    unfolding n_def n_intervals_def by linarith+
  define col :: "observation \<Rightarrow> nat" where "col ob = (if 0 \<le> \<lfloor>(time ob - 1 / 100) / 3\<rfloor>
      then nat \<lfloor>(time ob - 1 / 100) / 3\<rfloor> else n - 1)" for ob
  define row :: "observation \<Rightarrow> real list"
    where "row ob = (replicate n 0)[col ob := of_bool (event ob)]" for ob
  have idx: "np_index n \<lfloor>(time ob - 1 / 100) / 3\<rfloor> = Inr (col ob) \<and> col ob < n"
    if "ob \<in> set df" for ob
  proof -
    from that pos have lo: "- 1 \<le> \<lfloor>(time ob - 1 / 100) / 3\<rfloor>"
      by (intro last_period_lower) simp
    from that have "time ob \<le> time_max df"
      by (rule time_max_ge)
    then have hi: "\<lfloor>(time ob - 1 / 100) / 3\<rfloor> < int n"
      using last_period_upper [of "time ob" "time_max df"] n(1) nint by simp
    from np_index_Inr [OF lo hi n(2)] hi n(2) show ?thesis
      by (auto simp: col_def)
  qed
  then have "\<forall>ob \<in> set df. death_row n (ob, \<lfloor>(time ob - 1 / 100) / 3\<rfloor>) = Inr (row ob)"
    by (simp add: death_row_def row_def)
  then have "traverse (death_row n) (zip df (last_period df)) = Inr (map row df)"
    by (rule traverse_rows)
  moreover have "\<not> n_intervals bounds < 0"
    using n(1) by simp
  ultimately have D: "death df = Inr (map row df)"
    by (simp add: death_def eq flip: n_def)
  have "length (row (df ! i)) = nat (n_intervals bounds) \<and> set (row (df ! i)) \<subseteq> {0, 1} \<and>
      count_list (row (df ! i)) 1 = (if event (df ! i) then 1 else 0)"
    if "i < length df" for i
  proof -
    from that have "col (df ! i) < n"
      using idx by simp
    then show ?thesis
      using indicator_row_set [of "col (df ! i)" n "of_bool (event (df ! i))"]
        indicator_row_count [of "col (df ! i)" n "event (df ! i)"]
      by (auto simp: row_def simp flip: n_def)
  qed
  with eq D show ?thesis
    by (auto simp: n_patients_def)
qed

theorem death_rows_indicator_witness:
  "death [\<lparr>time = 5, event = True, metastized = False\<rparr>,
          \<lparr>time = 2, event = False, metastized = True\<rparr>] = Inr [[0, 1], [0, 0]] \<and>
   (\<exists>D. death [\<lparr>time = 5, event = True, metastized = False\<rparr>,
          \<lparr>time = 2, event = False, metastized = True\<rparr>] = Inr D \<and>
      count_list (D ! 0) 1 = 1 \<and> count_list (D ! 1) 1 = 0)"
proof -
  let ?df = "[\<lparr>time = 5, event = True, metastized = False\<rparr>,
              \<lparr>time = 2, event = False, metastized = True\<rparr>]"
  have ne: "?df \<noteq> []" by simp
  have pos: "\<forall>ob \<in> set ?df. 0 < time ob" by simp
  have "death ?df = Inr [[0, 1], [0, 0]]" by code_simp
  with death_rows_indicator [OF ne pos] show ?thesis
    by (auto simp: n_patients_def)
qed

text \<open>
  A censored subject has no one-hot row: the row of the only subject of this
  dataset holds no 1.
\<close>

theorem death_one_hot_counterexample:
  "death [\<lparr>time = 5, event = False, metastized = False\<rparr>] = Inr [[0, 0]] \<and>
   count_list (projr (death [\<lparr>time = 5, event = False, metastized = False\<rparr>]) ! 0) 1 = 0"
proof -
  have "death [\<lparr>time = 5, event = False, metastized = False\<rparr>] = Inr [[0, 0]]"
    by code_simp
  then show ?thesis by simp
qed

subsection \<open>Indices of the last period\<close>

text \<open>
  Where the indices are in range: a subject observed for at least 0.01 months (in
  particular for a whole number of months) has a last period between 0 and
  \<^verbatim>\<open>n_intervals - 1\<close>.
\<close>

lemma last_period_in_range:
  assumes "ob \<in> set df" and "1 / 100 \<le> time ob"
  shows "\<exists>bounds. interval_bounds df = Inr bounds \<and>
           0 \<le> \<lfloor>(time ob - 1 / 100) / real_of_int interval_length\<rfloor> \<and>
           \<lfloor>(time ob - 1 / 100) / real_of_int interval_length\<rfloor> < n_intervals bounds"
proof -
  from assms(1) have ne: "df \<noteq> []" by auto
  from assms(1) have le: "time ob \<le> time_max df" by (rule time_max_ge)
  with assms(2) have "0 < time_max df" by simp
  with ne obtain bounds where eq: "interval_bounds df = Inr bounds"
    and nint: "n_intervals bounds = \<lceil>(time_max df + 4) / 3\<rceil> - 1"
    by (rule n_intervals_pos)
  from assms(2) have "0 \<le> \<lfloor>(time ob - 1 / 100) / 3\<rfloor>"
    by (rule last_period_nonneg)
  moreover from le have "\<lfloor>(time ob - 1 / 100) / 3\<rfloor> < n_intervals bounds"
    unfolding nint by (rule last_period_upper)
  ultimately show ?thesis
    using eq by (simp add: interval_length_def)
qed

text \<open>
  C8: a positive observed time below 0.01 months has a last period outside
  \<open>0 \<le> last_period < n_intervals\<close>. For the first subject of this dataset
  \<^verbatim>\<open>last_period\<close> is \<open>-1\<close>, which NumPy reads as the last column: the death
  observed in the first interval is recorded in the last one.
\<close>

theorem last_period_negative_index:
  "last_period [\<lparr>time = 1 / 200, event = True, metastized = False\<rparr>,
                \<lparr>time = 5, event = False, metastized = True\<rparr>] = [- 1, 1] \<and>
   death [\<lparr>time = 1 / 200, event = True, metastized = False\<rparr>,
          \<lparr>time = 5, event = False, metastized = True\<rparr>] = Inr [[0, 1], [0, 0]]"
  by code_simp

subsection \<open>Exposure matrix\<close>

lemma trunc_nonneg: "0 \<le> x \<Longrightarrow> 0 \<le> trunc x"
  by (simp add: trunc_def)

lemma exposure_rows:
  assumes ne: "df \<noteq> []" and pos: "\<forall>ob \<in> set df. 0 < time ob"
  obtains bounds n where "interval_bounds df = Inr bounds"
    and "bounds = arange (time_max df + 4) 3"
    and "length bounds = Suc n" and "0 < n"
    and "\<forall>ob \<in> set df. \<lfloor>(time ob - 1 / 100) / 3\<rfloor> < int n"
    and "exposure df = Inr (map (\<lambda>ob.
           (map (\<lambda>b. if b \<le> time ob then interval_length else 0) (butlast bounds))
             [(if 0 \<le> \<lfloor>(time ob - 1 / 100) / 3\<rfloor>
               then nat \<lfloor>(time ob - 1 / 100) / 3\<rfloor> else n - 1) :=
              trunc (time ob - bounds ! (if 0 \<le> \<lfloor>(time ob - 1 / 100) / 3\<rfloor>
               then nat \<lfloor>(time ob - 1 / 100) / 3\<rfloor> else n))]) df)"
proof -
  from ne pos have m: "0 < time_max df"
    by (rule time_max_pos)
  from ne m obtain bounds where eq: "interval_bounds df = Inr bounds"
    and b: "bounds = arange (time_max df + 4) 3"
    and len: "2 \<le> length bounds"
    and nint: "n_intervals bounds = \<lceil>(time_max df + 4) / 3\<rceil> - 1"
    by (rule n_intervals_pos)
  define n where "n = length bounds - 1"
  from len have n: "n_intervals bounds = int n" "0 < n" "length bounds = Suc n"
    unfolding n_def n_intervals_def by linarith+
  define lp :: "observation \<Rightarrow> int" where "lp ob = \<lfloor>(time ob - 1 / 100) / 3\<rfloor>" for ob
  define row :: "observation \<Rightarrow> int list" where
    "row ob = (map (\<lambda>b. if b \<le> time ob then interval_length else 0) (butlast bounds))
                 [(if 0 \<le> lp ob then nat (lp ob) else n - 1) :=
                  trunc (time ob - bounds ! (if 0 \<le> lp ob then nat (lp ob) else n))]" for ob
  have hi: "lp ob < int n" if "ob \<in> set df" for ob
  proof -
    from that have "time ob \<le> time_max df" by (rule time_max_ge)
    then show ?thesis
      using last_period_upper [of "time ob" "time_max df"] n(1) nint by (simp add: lp_def)
  qed
  have r: "exposure_row bounds (ob, lp ob) = Inr (row ob)" if "ob \<in> set df" for ob
  proof -
    from that pos have lo: "- 1 \<le> lp ob"
      unfolding lp_def by (intro last_period_lower) simp
    from that have h: "lp ob < int n" by (rule hi)
    then have h': "lp ob < int (Suc n)" by simp
    have i1: "np_index (length bounds) (lp ob) = Inr (if 0 \<le> lp ob then nat (lp ob) else n)"
      using np_index_Inr [OF lo h'] by (simp add: n(3))
    have i2: "np_index (length (butlast bounds)) (lp ob)
        = Inr (if 0 \<le> lp ob then nat (lp ob) else n - 1)"
      using np_index_Inr [OF lo h n(2)] by (simp add: n(3))
    show ?thesis
      by (simp add: exposure_row_def i1 i2 row_def del: length_butlast)
  qed
  then have "\<forall>ob \<in> set df. exposure_row bounds (ob, \<lfloor>(time ob - 1 / 100) / 3\<rfloor>) = Inr (row ob)"
    by (simp add: lp_def)
  then have "traverse (exposure_row bounds) (zip df (last_period df)) = Inr (map row df)"
    by (rule traverse_rows)
  then have "exposure df = Inr (map row df)"
    by (simp add: exposure_def eq)
  then show ?thesis
    using eq b n(2,3) hi
    by (intro that [of bounds n]) (simp_all add: row_def lp_def)
qed

text \<open>
  Where the exposure is as intended: the row of a subject observed for at least 0.01
  months has no negative entry, and when the observed time lies at least 0.01 past
  the interval bound below it, the row sums to the whole months observed (to the
  observed time itself when that is a whole number).
\<close>

lemma exposure_row_nonneg:
  assumes pos: "\<forall>ob \<in> set df. 0 < time ob"
    and i: "i < n_patients df" and t: "1 / 100 \<le> time (df ! i)"
  shows "\<exists>E. exposure df = Inr E \<and> length E = n_patients df \<and> (\<forall>x \<in> set (E ! i). 0 \<le> x)"
proof -
  from i have ne: "df \<noteq> []" by (auto simp: n_patients_def)
  define ob where "ob = df ! i"
  from i have mem: "ob \<in> set df" by (simp add: ob_def n_patients_def)
  define lp where "lp = \<lfloor>(time ob - 1 / 100) / 3\<rfloor>"
  from ne pos obtain bounds n where b: "bounds = arange (time_max df + 4) 3"
    and len: "length bounds = Suc n"
    and hi: "\<forall>ob \<in> set df. \<lfloor>(time ob - 1 / 100) / 3\<rfloor> < int n"
    and E: "exposure df = Inr (map (\<lambda>ob.
           (map (\<lambda>b. if b \<le> time ob then interval_length else 0) (butlast bounds))
             [(if 0 \<le> \<lfloor>(time ob - 1 / 100) / 3\<rfloor>
               then nat \<lfloor>(time ob - 1 / 100) / 3\<rfloor> else n - 1) :=
              trunc (time ob - bounds ! (if 0 \<le> \<lfloor>(time ob - 1 / 100) / 3\<rfloor>
               then nat \<lfloor>(time ob - 1 / 100) / 3\<rfloor> else n))]) df)"
    by (rule exposure_rows)
  from t have lo: "0 \<le> lp"
    unfolding lp_def ob_def by (rule last_period_nonneg)
  from hi mem have "lp < int n" by (simp add: lp_def)
  with lo have "nat lp < nat \<lceil>(time_max df + 4) / 3\<rceil>"
    using len b by simp
  then have "bounds ! nat lp = real (nat lp) * 3"
    unfolding b by (rule arange_nth)
  also from lo have "\<dots> = real_of_int lp * 3" by simp
  also have "\<dots> \<le> time ob - 1 / 100"
    using of_int_floor_le [of "(time ob - 1 / 100) / 3"]
    by (simp add: lp_def pos_le_divide_eq)
  finally have "0 \<le> time ob - bounds ! nat lp" by simp
  then have "0 \<le> trunc (time ob - bounds ! nat lp)"
    by (rule trunc_nonneg)
  then have "\<forall>x \<in> set ((map (\<lambda>b. if b \<le> time ob then interval_length else 0) (butlast bounds))
             [nat lp := trunc (time ob - bounds ! nat lp)]). 0 \<le> x"
    by (auto dest!: set_update_subset_insert [THEN subsetD] simp: interval_length_def)
  with E i lo show ?thesis
    by (simp add: n_patients_def lp_def flip: ob_def)
qed


lemma floor_offset_eq:
  fixes t :: real
  assumes "1 / 100 \<le> t - 3 * real_of_int \<lfloor>t / 3\<rfloor>"
  shows "\<lfloor>(t - 1 / 100) / 3\<rfloor> = \<lfloor>t / 3\<rfloor>"
proof (rule floor_unique)
  from assms show "real_of_int \<lfloor>t / 3\<rfloor> \<le> (t - 1 / 100) / 3"
    by (simp add: pos_le_divide_eq)
next
  have "(t - 1 / 100) / 3 < t / 3" by simp
  also have "\<dots> < real_of_int \<lfloor>t / 3\<rfloor> + 1" by linarith
  finally show "(t - 1 / 100) / 3 < real_of_int \<lfloor>t / 3\<rfloor> + 1" .
qed

lemma exposure_row_sum:
  assumes pos: "\<forall>ob \<in> set df. 0 < time ob"
    and i: "i < n_patients df"
    and t: "1 / 100 \<le> time (df ! i) - 3 * real_of_int \<lfloor>time (df ! i) / 3\<rfloor>"
  shows "\<exists>E. exposure df = Inr E \<and> sum_list (E ! i) = \<lfloor>time (df ! i)\<rfloor>"
proof -
  from i have ne: "df \<noteq> []" by (auto simp: n_patients_def)
  define ob where "ob = df ! i"
  from i have mem: "ob \<in> set df" by (simp add: ob_def n_patients_def)
  define q where "q = \<lfloor>time ob / 3\<rfloor>"
  from ne pos obtain bounds n where b: "bounds = arange (time_max df + 4) 3"
    and len: "length bounds = Suc n"
    and hi: "\<forall>ob \<in> set df. \<lfloor>(time ob - 1 / 100) / 3\<rfloor> < int n"
    and E: "exposure df = Inr (map (\<lambda>ob.
           (map (\<lambda>b. if b \<le> time ob then interval_length else 0) (butlast bounds))
             [(if 0 \<le> \<lfloor>(time ob - 1 / 100) / 3\<rfloor>
               then nat \<lfloor>(time ob - 1 / 100) / 3\<rfloor> else n - 1) :=
              trunc (time ob - bounds ! (if 0 \<le> \<lfloor>(time ob - 1 / 100) / 3\<rfloor>
               then nat \<lfloor>(time ob - 1 / 100) / 3\<rfloor> else n))]) df)"
    by (rule exposure_rows)
  from t have lp: "\<lfloor>(time ob - 1 / 100) / 3\<rfloor> = q"
    unfolding q_def ob_def by (rule floor_offset_eq)
  from pos mem have "0 < time ob" by simp
  then have q0: "0 \<le> q" by (simp add: q_def)
  define k where "k = nat q"
  from q0 have qk: "q = int k" by (simp add: k_def)
  from hi mem have "\<lfloor>(time ob - 1 / 100) / 3\<rfloor> < int n" by blast
  with lp have kn: "k < n" by (simp add: qk)
  define v where "v = trunc (time ob - bounds ! k)"
  have bnth: "bounds ! j = real j * 3" if "j \<le> n" for j
    using that len b arange_nth [of j "time_max df + 4" 3] by simp
  have mask: "butlast bounds ! j \<le> time ob \<longleftrightarrow> j \<le> k" if "j < n" for j
  proof -
    from that have "butlast bounds ! j = real j * 3"
      using len by (simp add: nth_butlast bnth)
    moreover have "real j * 3 \<le> time ob \<longleftrightarrow> int j \<le> q"
      by (simp add: q_def le_floor_iff pos_le_divide_eq)
    ultimately show ?thesis by (simp add: qk)
  qed
  have row: "(map (\<lambda>b. if b \<le> time ob then interval_length else 0) (butlast bounds))[k := v]
      = replicate k 3 @ v # replicate (n - Suc k) 0"
    using kn len
    by (auto simp: list_eq_iff_nth_eq nth_list_update nth_append nth_Cons' mask
        interval_length_def)
  have "time ob - bounds ! k = time ob - 3 * real_of_int q"
    using kn by (simp add: bnth qk)
  moreover have "0 \<le> time ob - 3 * real_of_int q"
    using t by (simp add: q_def ob_def)
  ultimately have "v = \<lfloor>time ob - 3 * real_of_int q\<rfloor>"
    by (simp add: v_def trunc_def)
  also have "\<dots> = \<lfloor>time ob\<rfloor> - 3 * q"
    using floor_diff_of_int [of "time ob" "3 * q"] by simp
  finally have "sum_list (replicate k 3 @ v # replicate (n - Suc k) 0) = \<lfloor>time ob\<rfloor>"
    by (simp add: sum_list_replicate qk)
  with row have total: "sum_list
      ((map (\<lambda>b. if b \<le> time ob then interval_length else 0) (butlast bounds))[k := v])
      = \<lfloor>time ob\<rfloor>"
    by simp
  have c1: "(if 0 \<le> \<lfloor>(time ob - 1 / 100) / 3\<rfloor>
      then nat \<lfloor>(time ob - 1 / 100) / 3\<rfloor> else n - 1) = k"
    unfolding lp k_def using q0 by simp
  have c2: "(if 0 \<le> \<lfloor>(time ob - 1 / 100) / 3\<rfloor>
      then nat \<lfloor>(time ob - 1 / 100) / 3\<rfloor> else n) = k"
    unfolding lp k_def using q0 by simp
  from E i obtain E' where "exposure df = Inr E'"
    and "E' ! i = (map (\<lambda>b. if b \<le> time ob then interval_length else 0) (butlast bounds))
             [(if 0 \<le> \<lfloor>(time ob - 1 / 100) / 3\<rfloor>
               then nat \<lfloor>(time ob - 1 / 100) / 3\<rfloor> else n - 1) :=
              trunc (time ob - bounds ! (if 0 \<le> \<lfloor>(time ob - 1 / 100) / 3\<rfloor>
               then nat \<lfloor>(time ob - 1 / 100) / 3\<rfloor> else n))]"
    by (simp add: n_patients_def ob_def)
  then have "exposure df = Inr E'" and "sum_list (E' ! i) = \<lfloor>time ob\<rfloor>"
    unfolding c1 c2 using total by (simp_all add: v_def)
  then show ?thesis
    unfolding ob_def by blast
qed

lemma exposure_row_sum_whole_months:
  assumes pos: "\<forall>ob \<in> set df. 0 < time ob"
    and i: "i < n_patients df"
    and whole: "time (df ! i) = real_of_int m" and rest: "m mod 3 \<noteq> 0"
  shows "\<exists>E. exposure df = Inr E \<and> real_of_int (sum_list (E ! i)) = time (df ! i)"
proof -
  have "\<lfloor>real_of_int m / 3\<rfloor> = m div 3"
    using floor_divide_of_int_eq [of m 3, where ?'a = real] by simp
  moreover from rest have "1 \<le> m - 3 * (m div 3)"
    by (simp add: minus_mult_div_eq_mod)
  then have "1 \<le> real_of_int (m - 3 * (m div 3))"
    by (simp only: of_int_1_le_iff)
  ultimately have "1 / 100 \<le> time (df ! i) - 3 * real_of_int \<lfloor>time (df ! i) / 3\<rfloor>"
    by (simp add: whole)
  with pos i obtain E where "exposure df = Inr E" "sum_list (E ! i) = \<lfloor>time (df ! i)\<rfloor>"
    using exposure_row_sum by blast
  then show ?thesis
    by (auto simp: whole)
qed

text \<open>
  C6: a positive observed time below 0.01 months gives a negative exposure. The
  first subject's last period \<open>-1\<close> selects the last column and the last bound, so
  the entry written is \<open>0.005 - 6\<close>, cast to \<open>-5\<close>.
\<close>

theorem exposure_negative_entry:
  "exposure [\<lparr>time = 1 / 200, event = True, metastized = False\<rparr>,
             \<lparr>time = 5, event = False, metastized = True\<rparr>] = Inr [[3, - 5], [3, 2]]"
  by code_simp

text \<open>
  C9: just above an interval bound, the exposure row of a subject does not sum to
  the observed time although that time is positive and no multiple of
  \<^verbatim>\<open>interval_length\<close>. At 3.005 months the comparison with the bounds already
  counts the second interval in full, while \<^verbatim>\<open>last_period\<close> still points at the
  first: the row is \<open>[3, 3]\<close> and sums to 6.
\<close>

theorem exposure_row_sum_not_time:
  "exposure [\<lparr>time = 601 / 200, event = True, metastized = False\<rparr>] = Inr [[3, 3]] \<and>
   real_of_int (sum_list
       (projr (exposure [\<lparr>time = 601 / 200, event = True, metastized = False\<rparr>]) ! 0))
     \<noteq> time \<lparr>time = 601 / 200, event = True, metastized = False\<rparr>"
proof -
  have "exposure [\<lparr>time = 601 / 200, event = True, metastized = False\<rparr>] = Inr [[3, 3]]"
    by code_simp
  then show ?thesis by simp
qed

subsection \<open>Percentile band\<close>

text \<open>The interpolated read of sorted data at a fractional position.\<close>

lemma lerp_between:
  fixes lo hi w :: real
  assumes "lo \<le> hi" and "0 \<le> w" and "w \<le> 1"
  shows "lo \<le> lo * (1 - w) + hi * w" and "lo * (1 - w) + hi * w \<le> hi"
proof -
  have "lo * (1 - w) + hi * w = lo + w * (hi - lo)" by (simp add: algebra_simps)
  moreover from assms have "0 \<le> w * (hi - lo)" by simp
  ultimately show "lo \<le> lo * (1 - w) + hi * w" by simp
  have "lo * (1 - w) + hi * w = hi - (1 - w) * (hi - lo)" by (simp add: algebra_simps)
  moreover from assms have "0 \<le> (1 - w) * (hi - lo)" by simp
  ultimately show "lo * (1 - w) + hi * w \<le> hi" by simp
qed

lemma interpolate_mono:
  fixes ap :: "real list" and x y :: real
  assumes s: "sorted ap" and ne: "ap \<noteq> []"
    and x0: "0 \<le> x" and xy: "x \<le> y" and yn: "y \<le> real (length ap - 1)"
  shows "ap ! nat \<lfloor>x\<rfloor> * (1 - (x - real (nat \<lfloor>x\<rfloor>)))
           + ap ! min (nat \<lfloor>x\<rfloor> + 1) (length ap - 1) * (x - real (nat \<lfloor>x\<rfloor>))
       \<le> ap ! nat \<lfloor>y\<rfloor> * (1 - (y - real (nat \<lfloor>y\<rfloor>)))
           + ap ! min (nat \<lfloor>y\<rfloor> + 1) (length ap - 1) * (y - real (nat \<lfloor>y\<rfloor>))"
proof -
  define n where "n = length ap"
  define i where "i = nat \<lfloor>x\<rfloor>"
  define j where "j = nat \<lfloor>y\<rfloor>"
  define u where "u = x - real i"
  define v where "v = y - real j"
  from ne have n: "0 < n" by (simp add: n_def)
  from x0 have ri: "real i = of_int \<lfloor>x\<rfloor>" by (simp add: i_def)
  from x0 xy have rj: "real j = of_int \<lfloor>y\<rfloor>" by (simp add: j_def)
  have u: "0 \<le> u" "u \<le> 1" unfolding u_def ri by linarith+
  have v: "0 \<le> v" "v \<le> 1" unfolding v_def rj by linarith+
  from xy have ij: "i \<le> j" unfolding i_def j_def by (intro nat_mono floor_mono)
  have "real j \<le> y" unfolding rj by linarith
  with yn have "real j \<le> real (n - 1)" by (simp add: n_def)
  then have jn: "j \<le> n - 1" by simp
  have le: "ap ! a \<le> ap ! b" if "a \<le> b" "b \<le> n - 1" for a b
  proof -
    from ne have "0 < length ap" by simp
    with that(2) have "b < length ap" unfolding n_def by linarith
    with s that(1) show ?thesis by (intro sorted_nth_mono)
  qed
  have lo_i: "ap ! i \<le> ap ! min (i + 1) (n - 1)"
    using ij jn by (intro le) simp_all
  have lo_j: "ap ! j \<le> ap ! min (j + 1) (n - 1)"
    using jn by (intro le) simp_all
  have "ap ! i * (1 - u) + ap ! min (i + 1) (n - 1) * u
      \<le> ap ! j * (1 - v) + ap ! min (j + 1) (n - 1) * v"
  proof (cases "i = j")
    case True
    then have "u \<le> v" using xy by (simp add: u_def v_def)
    with lo_j have "u * (ap ! min (j + 1) (n - 1) - ap ! j) \<le> v * (ap ! min (j + 1) (n - 1) - ap ! j)"
      by (intro mult_right_mono) simp_all
    then have "ap ! j * (1 - u) + ap ! min (j + 1) (n - 1) * u
        \<le> ap ! j * (1 - v) + ap ! min (j + 1) (n - 1) * v"
      by (simp add: algebra_simps)
    with True show ?thesis by simp
  next
    case False
    with ij have "i + 1 \<le> j" by simp
    then have "ap ! min (i + 1) (n - 1) \<le> ap ! j"
      using jn by (intro le) simp_all
    moreover have "ap ! i * (1 - u) + ap ! min (i + 1) (n - 1) * u \<le> ap ! min (i + 1) (n - 1)"
      using lo_i u by (rule lerp_between)
    moreover have "ap ! j \<le> ap ! j * (1 - v) + ap ! min (j + 1) (n - 1) * v"
      using lo_j v by (rule lerp_between)
    ultimately show ?thesis
      by linarith
  qed
  then show ?thesis
    unfolding u_def v_def i_def j_def n_def .
qed

lemma percentile_mono:
  assumes "a \<noteq> []" and "0 \<le> p" and "p \<le> q" and "q \<le> 100"
  shows "\<exists>lower upper. percentile a p = Inr lower \<and> percentile a q = Inr upper \<and> lower \<le> upper"
proof -
  have "length (sort a) = length a" by simp
  with assms(1) have ne: "sort a \<noteq> []" by (metis length_0_conv)
  have "0 \<le> p / 100 * real (length (sort a) - 1)" using assms(2) by simp
  moreover have "p / 100 * real (length (sort a) - 1) \<le> q / 100 * real (length (sort a) - 1)"
    using assms(3) by (intro mult_right_mono) simp_all
  moreover have "q / 100 * real (length (sort a) - 1) \<le> 1 * real (length (sort a) - 1)"
    using assms(4) by (intro mult_right_mono) simp_all
  then have "q / 100 * real (length (sort a) - 1) \<le> real (length (sort a) - 1)"
    by (simp only: mult_1)
  ultimately show ?thesis
    using interpolate_mono [OF sorted_sort ne, of "p / 100 * real (length (sort a) - 1)"
        "q / 100 * real (length (sort a) - 1)"] assms
    by (simp add: percentile_def Let_def)
qed


lemma traverse_pointwise_le:
  fixes f g :: "'a \<Rightarrow> error + real"
  assumes "\<forall>x \<in> set xs. \<exists>l u. f x = Inr l \<and> g x = Inr u \<and> l \<le> u"
  shows "\<exists>ls us. traverse f xs = Inr ls \<and> traverse g xs = Inr us \<and> list_all2 (\<le>) ls us"
  using assms
proof (induction xs)
  case Nil
  then show ?case by simp
next
  case (Cons x xs)
  then obtain l u where "f x = Inr l" "g x = Inr u" "l \<le> u"
    by auto
  moreover from Cons obtain ls us
    where "traverse f xs = Inr ls" "traverse g xs = Inr us" "list_all2 (\<le>) ls us"
    by auto
  ultimately show ?case by simp
qed

text \<open>
  C1, as the code has it: for a non-empty collection of draws and a level
  \<open>alpha\<close> in \<open>(0, 1)\<close>, \<^verbatim>\<open>plot_with_hpd\<close> draws the central curve
  \<open>f (mean of the draws)\<close> and a band whose lower bound is at most its upper bound
  in every interval. The central curve is not tied to the band.
\<close>

theorem hpd_lower_le_upper:
  assumes "hazard \<noteq> []" and "0 < alpha" and "alpha < 1"
  shows "\<exists>r. plot_with_hpd hazard f alpha = Inr r \<and>
           mean r = f (mean_axis0 hazard) \<and> list_all2 (\<le>) (hpd0 r) (hpd1 r)"
proof -
  define p where "p = 100 * (alpha / 2)"
  define q where "q = 100 * (1 - alpha / 2)"
  from assms(2,3) have pq: "0 \<le> p" "p \<le> q" "q \<le> 100"
    by (simp_all add: p_def q_def)
  have "\<exists>l u. percentile (column (map f hazard) j) p = Inr l \<and>
      percentile (column (map f hazard) j) q = Inr u \<and> l \<le> u" for j
    using assms(1) pq by (intro percentile_mono) (simp_all add: column_def)
  then obtain lower upper
    where "percentile_axis0 (map f hazard) p = Inr lower"
      and "percentile_axis0 (map f hazard) q = Inr upper"
      and "list_all2 (\<le>) lower upper"
    unfolding percentile_axis0_def
    using traverse_pointwise_le [of "[0..<n_columns (map f hazard)]"
        "\<lambda>j. percentile (column (map f hazard) j) p"
        "\<lambda>j. percentile (column (map f hazard) j) q"]
    by blast
  with assms(1) show ?thesis
    unfolding plot_with_hpd_def p_def q_def by simp
qed

theorem hpd_lower_le_upper_witness:
  "plot_with_hpd [[0, 1], [0, 3], [0, 2], [0, 5], [10, 0]] cum_hazard (1 / 20)
     = Inr \<lparr>mean = [6, 63 / 5], hpd0 = [0, 33 / 10], hpd1 = [27, 57 / 2]\<rparr> \<and>
   (\<exists>r. plot_with_hpd [[0, 1], [0, 3], [0, 2], [0, 5], [10, 0]] cum_hazard (1 / 20) = Inr r \<and>
      list_all2 (\<le>) (hpd0 r) (hpd1 r))"
proof -
  have "plot_with_hpd [[0, 1], [0, 3], [0, 2], [0, 5], [10, 0]] cum_hazard (1 / 20)
     = Inr \<lparr>mean = [6, 63 / 5], hpd0 = [0, 33 / 10], hpd1 = [27, 57 / 2]\<rparr>"
    by code_simp
  moreover have "[[0, 1], [0, 3], [0, 2], [0, 5], [10, 0::real]] \<noteq> []" "(0::real) < 1 / 20"
    "(1::real) / 20 < 1"
    by simp_all
  from hpd_lower_le_upper [OF this, of cum_hazard]
  have "\<exists>r. plot_with_hpd [[0, 1], [0, 3], [0, 2], [0, 5], [10, 0]] cum_hazard (1 / 20) = Inr r \<and>
      list_all2 (\<le>) (hpd0 r) (hpd1 r)"
    by blast
  ultimately show ?thesis by blast
qed

text \<open>
  The central estimate need not lie inside the band: with four draws of hazard 0
  and one of hazard 10, the central curve is at 6 while both the 25th and the 75th
  percentile of the cumulative hazards are 0.
\<close>

theorem mean_outside_hpd_counterexample:
  "plot_with_hpd [[0], [0], [0], [0], [10]] cum_hazard (1 / 2)
     = Inr \<lparr>mean = [6], hpd0 = [0], hpd1 = [0]\<rparr> \<and>
   \<not> mean (projr (plot_with_hpd [[0], [0], [0], [0], [10]] cum_hazard (1 / 2))) ! 0
       \<le> hpd1 (projr (plot_with_hpd [[0], [0], [0], [0], [10]] cum_hazard (1 / 2))) ! 0"
proof -
  have "plot_with_hpd [[0], [0], [0], [0], [10]] cum_hazard (1 / 2)
     = Inr \<lparr>mean = [6], hpd0 = [0], hpd1 = [0]\<rparr>"
    by code_simp
  then show ?thesis by simp
qed

end
